theory Spec2Isabelle
  imports Main "HOL-Library.Sublist"
begin

section \<open>Time, formatting and strings\<close>

text \<open>
  A point in time is the number of nanoseconds since the Unix epoch, and a
  \<open>time.Duration\<close> is a number of nanoseconds. \<open>Time.Add\<close> is addition and
  \<open>Time.Before\<close> is \<open><\<close>: the bounds of what a \<open>time.Time\<close> can hold (some
  hundred thousand million years) are not modelled. The type \<open>int\<close> of Go has
  64 bits.
\<close>

type_synonym time = int
type_synonym duration = int

definition Millisecond :: duration where
  "Millisecond = 1000000"

definition Second :: duration where
  "Second = 1000000000"

definition Minute :: duration where
  "Minute = 60 * Second"

definition Hour :: duration where
  "Hour = 60 * Minute"

text \<open>\<open>time.Unix(sec, 0)\<close>.\<close>

definition Unix :: "int \<Rightarrow> time" where
  "Unix sec = sec * Second"

text \<open>The zero value of \<open>time.Time\<close>: January 1, year 1, 00:00 UTC.\<close>

definition zeroTime :: time where
  "zeroTime = Unix (- 62135596800)"

text \<open>
  \<open>time.Duration(n) * time.Second\<close> for an \<open>int\<close> \<open>n\<close>: a product of 64-bit
  signed integers, which wraps around.
\<close>

definition wrap64 :: "int \<Rightarrow> int" where
  "wrap64 x = (x + 2 ^ 63) mod 2 ^ 64 - 2 ^ 63"

definition secondsDuration :: "int \<Rightarrow> duration" where
  "secondsDuration n = wrap64 (n * Second)"

text \<open>The verb \<open>%d\<close> of \<open>fmt.Errorf\<close>.\<close>

fun showNat :: "nat \<Rightarrow> string" where
  "showNat n =
     (if n < 10 then [''0123456789'' ! n]
      else showNat (n div 10) @ [''0123456789'' ! (n mod 10)])"

declare showNat.simps [simp del]

definition showInt :: "int \<Rightarrow> string" where
  "showInt i = (if i < 0 then ''-'' @ showNat (nat (- i)) else showNat (nat i))"

text \<open>\<open>strings.Contains(s, substr)\<close>.\<close>

definition Contains :: "string \<Rightarrow> string \<Rightarrow> bool" where
  "Contains s substr = sublist substr s"

text \<open>
  An \<open>error\<close> is represented by its text (\<open>err.Error()\<close>): the only thing the code
  ever asks of one. \<open>fmt.Errorf\<close> with \<open>%w\<close> or \<open>%s\<close> is concatenation.
\<close>

type_synonym error = string

text \<open>
  The packages \<open>net/http\<close> and \<open>encoding/json\<close> are outside the repository. The
  outcome of one HTTP call is an \<open>exchange\<close>: \<open>http.NewRequest\<close>, \<open>Client.Do\<close> or
  \<open>io.ReadAll\<close> fails with an error, or a response arrives. A response carries,
  beside its bytes, what \<open>json.Unmarshal\<close> makes of the bytes for each target
  struct the code decodes into.
\<close>

datatype 'r exchange =
  NewRequestError error
| DoError error
| ReadAllError error
| Response 'r

section \<open>Shared types (internal/types/types.go)\<close>

record TokenResponse =
  AccessToken :: string
  RefreshToken :: string
  TokenType :: string
  ExpiresIn :: string
  ExpiresOn :: string
  Resource :: string
  Scope :: string
  ExpiresAt :: time

record DeviceCodeResponse =
  DeviceCode :: string
  UserCode :: string
  VerificationURL :: string
  VerificationURI :: string
  dcExpiresIn :: string
  Interval :: string
  Message :: string

text \<open>
  The zero values of the two structs: what \<open>json.Unmarshal\<close> leaves of a fresh
  struct when the JSON text names none of its fields.
\<close>

definition zeroTokenResponse :: TokenResponse where
  "zeroTokenResponse = \<lparr>AccessToken = [], RefreshToken = [], TokenType = [], ExpiresIn = [],
     ExpiresOn = [], Resource = [], Scope = [], ExpiresAt = zeroTime\<rparr>"

definition zeroDeviceCodeResponse :: DeviceCodeResponse where
  "zeroDeviceCodeResponse = \<lparr>DeviceCode = [], UserCode = [], VerificationURL = [],
     VerificationURI = [], dcExpiresIn = [], Interval = [], Message = []\<rparr>"

definition GetVerificationURL :: "DeviceCodeResponse \<Rightarrow> string" where
  "GetVerificationURL d =
     (if VerificationURL d \<noteq> [] then VerificationURL d else VerificationURI d)"

section \<open>Graph API client (internal/graph/client.go)\<close>

definition RateLimitDelay :: duration where
  "RateLimitDelay = 100 * Millisecond"

record Client =
  accessToken :: string
  baseURL :: string

text \<open>
  A record of a page is an opaque \<open>json.RawMessage\<close>. \<open>Unmarshal\<close> is what
  \<open>json.Unmarshal\<close> yields for the target struct of \<open>getPage\<close>: an error, or the
  \<open>value\<close> array and the \<open>@odata.nextLink\<close> string.
\<close>

type_synonym RawMessage = string

record response =
  StatusCode :: int
  Body :: string
  Unmarshal :: "error + (RawMessage list \<times> string)"

text \<open>
  The remote side: the outcome of the \<open>n\<close>-th call of \<open>getPage\<close> in a walk (counted
  from 0) for the URL it asks for.
\<close>

type_synonym server = "nat \<Rightarrow> string \<Rightarrow> response exchange"

definition truncateError :: "string \<Rightarrow> string" where
  "truncateError s = (if length s > 200 then take 200 s @ ''...'' else s)"

definition getPage :: "server \<Rightarrow> nat \<Rightarrow> string \<Rightarrow> error + (RawMessage list \<times> string)" where
  "getPage srv n url =
     (case srv n url of
        NewRequestError err \<Rightarrow> Inl err
      | DoError err \<Rightarrow> Inl err
      | ReadAllError err \<Rightarrow> Inl err
      | Response r \<Rightarrow>
          if StatusCode r \<ge> 400 then
            Inl (''API error '' @ showInt (StatusCode r) @ '': '' @ truncateError (Body r))
          else (case Unmarshal r of
                  Inl err \<Rightarrow> Inl (''parse response: '' @ err)
                | Inr (val, next) \<Rightarrow> Inr (val, next)))"

text \<open>
  What a walk does besides computing its result: the calls of \<open>getPage\<close> and of
  \<open>time.Sleep\<close> it makes, in order.
\<close>

datatype event = Get string | Sleep duration

fun isGet :: "event \<Rightarrow> bool" where
  "isGet (Get _) = True"
| "isGet (Sleep _) = False"

fun isSleep :: "event \<Rightarrow> bool" where
  "isSleep (Sleep _) = True"
| "isSleep (Get _) = False"

definition gets :: "event list \<Rightarrow> nat" where
  "gets tr = length (filter isGet tr)"

definition sleeps :: "event list \<Rightarrow> nat" where
  "sleeps tr = length (filter isSleep tr)"

text \<open>
  The loop of \<open>GetAllPages\<close>. Whether it ends depends on the server (a server may
  link pages for ever), so it is a partial function: \<open>None\<close> is a walk that never
  returns. A returned triple is the records, the error (if any) and the trace.
\<close>

partial_function (option) GetAllPages_loop ::
  "server \<Rightarrow> int \<Rightarrow> RawMessage list \<Rightarrow> string \<Rightarrow> event list
     \<Rightarrow> (RawMessage list \<times> error option \<times> event list) option" where
  "GetAllPages_loop srv maxResults allResults nextLink tr =
     (if nextLink \<noteq> [] then
        if maxResults > 0 \<and> int (length allResults) \<ge> maxResults then
          Some (allResults, None, tr)
        else
          (case getPage srv (gets tr) nextLink of
             Inl err \<Rightarrow> Some (allResults, Some err, tr @ [Get nextLink])
           | Inr (results, next) \<Rightarrow>
               GetAllPages_loop srv maxResults (allResults @ results) next
                 (if next \<noteq> [] then tr @ [Get nextLink, Sleep RateLimitDelay]
                  else tr @ [Get nextLink]))
      else Some (allResults, None, tr))"

definition GetAllPages ::
  "server \<Rightarrow> Client \<Rightarrow> string \<Rightarrow> int
     \<Rightarrow> (RawMessage list \<times> error option \<times> event list) option" where
  "GetAllPages srv c endpoint maxResults =
     GetAllPages_loop srv maxResults [] (baseURL c @ endpoint) []"

text \<open>
  Cursor-linked pages, each given by its URL and its records: from its \<open>n\<close>-th
  request on, the server answers the URL of each page of the list with that
  page's records and the URL of the next page, and the last page of the list
  with the link \<open>fin\<close>. A server exposes the pages when the last page carries no
  link.
\<close>

definition okPage :: "response exchange \<Rightarrow> RawMessage list \<Rightarrow> string \<Rightarrow> bool" where
  "okPage x rs next =
     (case x of Response r \<Rightarrow> StatusCode r < 400 \<and> Unmarshal r = Inr (rs, next)
      | _ \<Rightarrow> False)"

fun linked :: "server \<Rightarrow> nat \<Rightarrow> (string \<times> RawMessage list) list \<Rightarrow> string \<Rightarrow> bool" where
  "linked srv n [] fin = True"
| "linked srv n [(u, rs)] fin = (u \<noteq> [] \<and> okPage (srv n u) rs fin)"
| "linked srv n ((u, rs) # (v, qs) # ps) fin =
     (u \<noteq> [] \<and> okPage (srv n u) rs v \<and> linked srv (Suc n) ((v, qs) # ps) fin)"

definition exposes :: "server \<Rightarrow> (string \<times> RawMessage list) list \<Rightarrow> bool" where
  "exposes srv ps = (ps \<noteq> [] \<and> linked srv 0 ps [])"

text \<open>The trace of a walk over the given URLs: a delay between two GETs only.\<close>

fun walkTrace :: "string list \<Rightarrow> event list" where
  "walkTrace [] = []"
| "walkTrace [u] = [Get u]"
| "walkTrace (u # v # us) = Get u # Sleep RateLimitDelay # walkTrace (v # us)"

section \<open>Device-code authentication (package auth)\<close>

definition DeviceCodeEndpoint :: string where
  "DeviceCodeEndpoint = ''https://login.microsoftonline.com/common/oauth2/devicecode?api-version=1.0''"

definition TokenEndpoint :: string where
  "TokenEndpoint = ''https://login.microsoftonline.com/Common/oauth2/token?api-version=1.0''"

record Authenticator =
  clientID :: string
  resource :: string
  tokenFile :: string
  tokens :: "TokenResponse option"

text \<open>
  \<open>fmt.Sscanf(s, "%d", &v)\<close> is outside the repository: every function that calls
  it takes it as the argument \<open>scan\<close>, where \<open>scan s = Some v\<close> when the call
  succeeds and stores \<open>v\<close>, and \<open>scan s = None\<close> when it returns an error (and
  stores nothing).
\<close>

type_synonym scanner = "string \<Rightarrow> int option"

text \<open>
  The body of a response of the identity provider: its bytes, and what
  \<open>json.Unmarshal\<close> yields for the three structs the package decodes into. For
  the anonymous error struct of \<open>redeemDeviceCode\<close>, whose decoding error is
  ignored, these are the fields \<open>Error\<close> and \<open>Description\<close> afterwards.
\<close>

record body =
  Raw :: string
  errorJson :: "string \<times> string"
  tokensJson :: "error + TokenResponse"
  deviceCodeJson :: "error + DeviceCodeResponse"

text \<open>
  The remote side: how long the \<open>n\<close>-th call of \<open>postForm\<close> takes, in nanoseconds,
  and its outcome.
\<close>

type_synonym network = "nat \<Rightarrow> nat \<times> body exchange"

text \<open>
  The token file: \<open>os.ReadFile\<close> fails, or \<open>json.Unmarshal\<close> of its content
  fails, or the content decodes to a credential.
\<close>

datatype fileState = Unreadable error | Malformed error | Holds TokenResponse

text \<open>
  The world the authenticator runs in: the wall clock, the forms posted so far
  (one entry for each call of \<open>postForm\<close>: the endpoint and the form values,
  sorted by key as \<open>url.Values.Encode\<close> sends them), the token file (\<open>disk\<close>),
  and the error (if any) that writing the token file meets (\<open>json.MarshalIndent\<close>
  or \<open>os.WriteFile\<close>). Time passes in \<open>time.Sleep\<close>, which sleeps as long as asked,
  and in HTTP calls only. The terminal output of package \<open>ui\<close> is left out.
\<close>

record world =
  clock :: time
  posts :: "(string \<times> (string \<times> string) list) list"
  disk :: fileState
  writeError :: "error option"

text \<open>\<open>time.Sleep(d)\<close> returns at once when \<open>d \<le> 0\<close>.\<close>

definition sleepFor :: "duration \<Rightarrow> world \<Rightarrow> world" where
  "sleepFor d w = w\<lparr>clock := clock w + max 0 d\<rparr>"

definition postForm ::
  "network \<Rightarrow> string \<Rightarrow> (string \<times> string) list \<Rightarrow> world \<Rightarrow> body exchange \<times> world" where
  "postForm net endpoint data w =
     (case net (length (posts w)) of
        (d, x) \<Rightarrow> (x, w\<lparr>clock := clock w + int d, posts := posts w @ [(endpoint, data)]\<rparr>))"

definition parseIntOrDefault :: "scanner \<Rightarrow> string \<Rightarrow> int \<Rightarrow> int" where
  "parseIntOrDefault scan s defaultVal =
     (case scan s of
        None \<Rightarrow> defaultVal
      | Some val \<Rightarrow> if val \<le> 0 then defaultVal else val)"

text \<open>
  \<open>isTokenValid\<close> and \<open>parseExpiration\<close> take the reading of \<open>time.Now()\<close> and the
  receiver's \<open>tokens\<close> as arguments.
\<close>

definition isTokenValid :: "time \<Rightarrow> TokenResponse option \<Rightarrow> bool" where
  "isTokenValid now ts =
     (case ts of
        None \<Rightarrow> False
      | Some t \<Rightarrow> now < ExpiresAt t + (- 5) * Minute)"

definition parseExpiration :: "scanner \<Rightarrow> time \<Rightarrow> TokenResponse \<Rightarrow> TokenResponse" where
  "parseExpiration scan now t =
     (if ExpiresOn t \<noteq> [] then
        t\<lparr>ExpiresAt := Unix (case scan (ExpiresOn t) of Some expiresOn \<Rightarrow> expiresOn | None \<Rightarrow> 0)\<rparr>
      else t\<lparr>ExpiresAt := now + Hour\<rparr>)"

text \<open>
  A nil \<open>tokens\<close> pointer is dereferenced nowhere in a run: the branches below
  that stand for the panic are unreachable from \<open>GetTokens\<close>.
\<close>

definition nilDereference :: error where
  "nilDereference = ''runtime error: invalid memory address or nil pointer dereference''"

definition loadTokens :: "Authenticator \<Rightarrow> world \<Rightarrow> error option \<times> Authenticator" where
  "loadTokens a w =
     (case disk w of
        Unreadable err \<Rightarrow> (Some err, a)
      | Malformed err \<Rightarrow> (Some err, a)
      | Holds t \<Rightarrow> (None, a\<lparr>tokens := Some t\<rparr>))"

text \<open>
  \<open>saveTokens\<close> marshals the pointer: a nil pointer gives the text \<open>null\<close>, which
  decodes to the zero value of the struct.
\<close>

definition saveTokens :: "Authenticator \<Rightarrow> world \<Rightarrow> error option \<times> world" where
  "saveTokens a w =
     (case writeError w of
        Some err \<Rightarrow> (Some err, w)
      | None \<Rightarrow>
          (case tokens a of
             None \<Rightarrow> (None, w\<lparr>disk := Holds zeroTokenResponse\<rparr>)
           | Some t \<Rightarrow> (None, w\<lparr>disk := Holds t\<rparr>)))"

definition requestDeviceCode ::
  "network \<Rightarrow> Authenticator \<Rightarrow> world \<Rightarrow> (error + DeviceCodeResponse) \<times> world" where
  "requestDeviceCode net a w =
     (case postForm net DeviceCodeEndpoint
             [(''client_id'', clientID a), (''resource'', resource a)] w of
        (NewRequestError err, w') \<Rightarrow> (Inl err, w')
      | (DoError err, w') \<Rightarrow> (Inl err, w')
      | (ReadAllError err, w') \<Rightarrow> (Inl (''read response: '' @ err), w')
      | (Response b, w') \<Rightarrow>
          (case deviceCodeJson b of
             Inl err \<Rightarrow> (Inl (''parse response: '' @ err @ '' (body: '' @ Raw b @ '')''), w')
           | Inr deviceCode \<Rightarrow> (Inr deviceCode, w')))"

definition redeemDeviceCode ::
  "network \<Rightarrow> Authenticator \<Rightarrow> string \<Rightarrow> world \<Rightarrow> (error + TokenResponse) \<times> world" where
  "redeemDeviceCode net a deviceCode w =
     (case postForm net TokenEndpoint
             [(''client_id'', clientID a), (''code'', deviceCode),
              (''grant_type'', ''urn:ietf:params:oauth:grant-type:device_code'')] w of
        (NewRequestError err, w') \<Rightarrow> (Inl err, w')
      | (DoError err, w') \<Rightarrow> (Inl err, w')
      | (ReadAllError err, w') \<Rightarrow> (Inl err, w')
      | (Response b, w') \<Rightarrow>
          if fst (errorJson b) \<noteq> [] then
            (Inl (fst (errorJson b) @ '': '' @ snd (errorJson b)), w')
          else
            (case tokensJson b of
               Inl err \<Rightarrow> (Inl (''parse tokens: '' @ err), w')
             | Inr t \<Rightarrow>
                 if AccessToken t = [] then (Inl ''no access token in response'', w')
                 else (Inr t, w')))"

text \<open>
  The loop of \<open>pollForToken\<close>. It ends when the clock passes the deadline, and
  the clock moves only as far as the sleep and the request take, so the loop is a
  partial function: \<open>None\<close> is a run that never returns.
\<close>

partial_function (option) pollLoop ::
  "network \<Rightarrow> Authenticator \<Rightarrow> string \<Rightarrow> int \<Rightarrow> int \<Rightarrow> time \<Rightarrow> world
     \<Rightarrow> ((error + TokenResponse) \<times> world) option" where
  "pollLoop net a deviceCode interval expiresIn deadline w =
     (if clock w < deadline then
        (case redeemDeviceCode net a deviceCode (sleepFor (secondsDuration interval) w) of
           (Inl err, w') \<Rightarrow>
             if Contains err ''authorization_pending'' then
               pollLoop net a deviceCode interval expiresIn deadline w'
             else Some (Inl err, w')
         | (Inr t, w') \<Rightarrow> Some (Inr t, w'))
      else
        Some (Inl (''authentication timed out after '' @ showInt expiresIn @ '' seconds''), w))"

definition pollForToken ::
  "scanner \<Rightarrow> network \<Rightarrow> Authenticator \<Rightarrow> DeviceCodeResponse \<Rightarrow> world
     \<Rightarrow> ((error + TokenResponse) \<times> world) option" where
  "pollForToken scan net a dc w =
     (let interval = parseIntOrDefault scan (Interval dc) 5;
          expiresIn = parseIntOrDefault scan (dcExpiresIn dc) 900;
          deadline = clock w + secondsDuration expiresIn
      in pollLoop net a (DeviceCode dc) interval expiresIn deadline w)"

definition deviceCodeAuth ::
  "scanner \<Rightarrow> network \<Rightarrow> Authenticator \<Rightarrow> world
     \<Rightarrow> ((error + TokenResponse) \<times> Authenticator \<times> world) option" where
  "deviceCodeAuth scan net a w =
     (case requestDeviceCode net a w of
        (Inl err, w1) \<Rightarrow> Some (Inl (''request device code: '' @ err), a, w1)
      | (Inr deviceCode, w1) \<Rightarrow>
          (case pollForToken scan net a deviceCode w1 of
             None \<Rightarrow> None
           | Some (Inl err, w2) \<Rightarrow> Some (Inl (''authentication failed: '' @ err), a, w2)
           | Some (Inr t, w2) \<Rightarrow>
               (let t' = parseExpiration scan (clock w2) t;
                    a' = a\<lparr>tokens := Some t'\<rparr>
                in Some (Inr t', a', snd (saveTokens a' w2)))))"

definition refresh ::
  "scanner \<Rightarrow> network \<Rightarrow> Authenticator \<Rightarrow> world \<Rightarrow> error option \<times> Authenticator \<times> world" where
  "refresh scan net a w =
     (case tokens a of
        None \<Rightarrow> (Some nilDereference, a, w)
      | Some old \<Rightarrow>
          (case postForm net TokenEndpoint
                  [(''client_id'', clientID a), (''grant_type'', ''refresh_token''),
                   (''refresh_token'', RefreshToken old), (''resource'', resource a)] w of
             (NewRequestError err, w') \<Rightarrow> (Some err, a, w')
           | (DoError err, w') \<Rightarrow> (Some err, a, w')
           | (ReadAllError err, w') \<Rightarrow> (Some err, a, w')
           | (Response b, w') \<Rightarrow>
               (case tokensJson b of
                  Inl err \<Rightarrow> (Some err, a, w')
                | Inr t \<Rightarrow>
                    if AccessToken t = [] then
                      (Some (''no access token in refresh response: '' @ Raw b), a, w')
                    else
                      (let a' = a\<lparr>tokens := Some (parseExpiration scan (clock w') t)\<rparr>
                       in (None, a', snd (saveTokens a' w'))))))"

definition GetTokens ::
  "scanner \<Rightarrow> network \<Rightarrow> Authenticator \<Rightarrow> world
     \<Rightarrow> ((error + TokenResponse) \<times> Authenticator \<times> world) option" where
  "GetTokens scan net a w =
     (case loadTokens a w of
        (Some err, a1) \<Rightarrow> deviceCodeAuth scan net a1 w
      | (None, a1) \<Rightarrow>
          (case tokens a1 of
             None \<Rightarrow> Some (Inl nilDereference, a1, w)
           | Some t \<Rightarrow>
               if isTokenValid (clock w) (tokens a1) then Some (Inr t, a1, w)
               else if RefreshToken t \<noteq> [] then
                 (case refresh scan net a1 w of
                    (None, a2, w2) \<Rightarrow>
                      (case tokens a2 of
                         None \<Rightarrow> Some (Inl nilDereference, a2, w2)
                       | Some t2 \<Rightarrow> Some (Inr t2, a2, w2))
                  | (Some err, a2, w2) \<Rightarrow> deviceCodeAuth scan net a2 w2)
               else deviceCodeAuth scan net a1 w))"

definition GetAccessToken ::
  "scanner \<Rightarrow> network \<Rightarrow> Authenticator \<Rightarrow> world
     \<Rightarrow> ((error + string) \<times> Authenticator \<times> world) option" where
  "GetAccessToken scan net a w =
     (case GetTokens scan net a w of
        None \<Rightarrow> None
      | Some (Inl err, a', w') \<Rightarrow> Some (Inl err, a', w')
      | Some (Inr t, a', w') \<Rightarrow> Some (Inr (AccessToken t), a', w'))"

section \<open>Descriptions of runs\<close>

text \<open>
  The two answers of the token endpoint that the poll loop tells apart from
  failures: the error code \<open>authorization_pending\<close>, and a credential with a
  non-empty access token (and no error code).
\<close>

definition pending :: "body exchange \<Rightarrow> bool" where
  "pending x =
     (case x of Response b \<Rightarrow> fst (errorJson b) = ''authorization_pending'' | _ \<Rightarrow> False)"

definition granted :: "body exchange \<Rightarrow> TokenResponse \<Rightarrow> bool" where
  "granted x t =
     (case x of
        Response b \<Rightarrow> fst (errorJson b) = [] \<and> tokensJson b = Inr t \<and> AccessToken t \<noteq> []
      | _ \<Rightarrow> False)"


text \<open>
  A refresh request fails in one of three ways: a transport error, a body that
  does not decode, or a decoded body without an access token.
\<close>

definition refreshFails :: "body exchange \<Rightarrow> bool" where
  "refreshFails x =
     (case x of
        Response b \<Rightarrow> (case tokensJson b of Inl err \<Rightarrow> True | Inr t \<Rightarrow> AccessToken t = [])
      | _ \<Rightarrow> True)"

text \<open>
  The form that \<open>redeemDeviceCode\<close> posts, and the world after one round of the
  poll loop (the sleep, then the request).
\<close>

definition redeemPost :: "Authenticator \<Rightarrow> string \<Rightarrow> string \<times> (string \<times> string) list" where
  "redeemPost a deviceCode =
     (TokenEndpoint,
      [(''client_id'', clientID a), (''code'', deviceCode),
       (''grant_type'', ''urn:ietf:params:oauth:grant-type:device_code'')])"

definition polled :: "network \<Rightarrow> Authenticator \<Rightarrow> string \<Rightarrow> int \<Rightarrow> world \<Rightarrow> world" where
  "polled net a deviceCode interval w =
     snd (redeemDeviceCode net a deviceCode (sleepFor (secondsDuration interval) w))"

text \<open>The form that \<open>refresh\<close> posts, and the world after a call of \<open>postForm\<close>.\<close>

definition refreshPost ::
  "Authenticator \<Rightarrow> TokenResponse \<Rightarrow> string \<times> (string \<times> string) list" where
  "refreshPost a old =
     (TokenEndpoint,
      [(''client_id'', clientID a), (''grant_type'', ''refresh_token''),
       (''refresh_token'', RefreshToken old), (''resource'', resource a)])"

definition posted :: "network \<Rightarrow> string \<times> (string \<times> string) list \<Rightarrow> world \<Rightarrow> world" where
  "posted net p w = snd (postForm net (fst p) (snd p) w)"


section \<open>Sample inputs\<close>

definition demoClient :: Client where
  "demoClient = \<lparr>accessToken = ''tok'', baseURL = ''https://graph/v1.0''\<rparr>"

definition demoServer :: server where
  "demoServer n u =
     (if u = ''https://graph/v1.0/users'' then
        Response \<lparr>StatusCode = 200, Body = ''{...}'',
          Unmarshal = Inr ([''u1'', ''u2''], ''https://graph/v1.0/users?skip=2'')\<rparr>
      else if u = ''https://graph/v1.0/users?skip=2'' then
        Response \<lparr>StatusCode = 200, Body = ''{...}'',
          Unmarshal = Inr ([''u3'', ''u4''], ''https://graph/v1.0/users?skip=4'')\<rparr>
      else if u = ''https://graph/v1.0/users?skip=4'' then
        Response \<lparr>StatusCode = 200, Body = ''{...}'', Unmarshal = Inr ([''u5''], [])\<rparr>
      else Response \<lparr>StatusCode = 404, Body = ''not found'', Unmarshal = Inl ''invalid character''\<rparr>)"

definition flakyServer :: server where
  "flakyServer n u =
     (if n = 1 then
        Response \<lparr>StatusCode = 503, Body = ''busy'', Unmarshal = Inl ''invalid character''\<rparr>
      else demoServer n u)"

text \<open>What \<open>fmt.Sscanf\<close> reads from the decimal strings of the samples.\<close>

definition scanDemo :: scanner where
  "scanDemo = map_of [(''5'', 5), (''10'', 10), (''900'', 900), (''3599'', 3599),
     (''7200'', 7200), (''1699990000'', 1699990000), (''1700003600'', 1700003600)]"

definition demoAuth :: Authenticator where
  "demoAuth = \<lparr>clientID = ''d3590ed6'', resource = ''https://graph.microsoft.com'',
     tokenFile = ''out/tokens.json'', tokens = None\<rparr>"

definition demoCode :: DeviceCodeResponse where
  "demoCode = \<lparr>DeviceCode = ''DAQAB'', UserCode = ''ABCD'',
     VerificationURL = ''https://aka.ms/devicelogin'', VerificationURI = [],
     dcExpiresIn = ''900'', Interval = ''5'', Message = []\<rparr>"

text \<open>A device code that lives for ten seconds.\<close>

definition hastyCode :: DeviceCodeResponse where
  "hastyCode = demoCode\<lparr>dcExpiresIn := ''10''\<rparr>"

definition demoTokens :: TokenResponse where
  "demoTokens = \<lparr>AccessToken = ''eyJ0'', RefreshToken = ''0.AR'', TokenType = ''Bearer'',
     ExpiresIn = ''3599'', ExpiresOn = ''1700003600'',
     Resource = ''https://graph.microsoft.com'', Scope = [], ExpiresAt = zeroTime\<rparr>"


definition freshTokens :: TokenResponse where
  "freshTokens = demoTokens\<lparr>ExpiresAt := Unix 1700003600\<rparr>"

definition staleTokens :: TokenResponse where
  "staleTokens = demoTokens\<lparr>ExpiresOn := ''1699990000'', ExpiresAt := Unix 1699990000\<rparr>"

definition pendingBody :: body where
  "pendingBody = \<lparr>Raw = ''{error: authorization_pending}'',
     errorJson = (''authorization_pending'', ''AADSTS70016''),
     tokensJson = Inr zeroTokenResponse, deviceCodeJson = Inr zeroDeviceCodeResponse\<rparr>"

definition grantedBody :: body where
  "grantedBody = \<lparr>Raw = ''{access_token: eyJ0}'', errorJson = ([], []),
     tokensJson = Inr demoTokens, deviceCodeJson = Inr zeroDeviceCodeResponse\<rparr>"

definition invalidGrantBody :: body where
  "invalidGrantBody = \<lparr>Raw = ''{error: invalid_grant}'',
     errorJson = (''invalid_grant'', ''AADSTS70000''),
     tokensJson = Inr zeroTokenResponse, deviceCodeJson = Inr zeroDeviceCodeResponse\<rparr>"

definition deviceCodeBody :: body where
  "deviceCodeBody = \<lparr>Raw = ''{device_code: DAQAB}'', errorJson = ([], []),
     tokensJson = Inr zeroTokenResponse, deviceCodeJson = Inr demoCode\<rparr>"

text \<open>Two pending answers, then the grant; every call takes a fifth of a second.\<close>

definition demoNet :: network where
  "demoNet n = (200000000, if n < 2 then Response pendingBody else Response grantedBody)"

text \<open>Pending for ever; every call takes three seconds.\<close>

definition slowNet :: network where
  "slowNet n = (3000000000, Response pendingBody)"


text \<open>
  A refresh that is refused, then a device-code flow that succeeds: the device
  code, one pending answer, the grant.
\<close>

definition fallbackNet :: network where
  "fallbackNet n =
     (200000000,
      if n = 0 then Response invalidGrantBody
      else if n = 1 then Response deviceCodeBody
      else if n = 2 then Response pendingBody
      else Response grantedBody)"

definition demoWorld :: world where
  "demoWorld = \<lparr>clock = Unix 1700000000, posts = [], disk = Unreadable ''no such file'',
     writeError = None\<rparr>"

definition staleWorld :: world where
  "staleWorld = \<lparr>clock = Unix 1700000000, posts = [], disk = Holds staleTokens,
     writeError = None\<rparr>"

section \<open>Pagination\<close>

lemma gets_append [simp]: "gets (tr @ tr') = gets tr + gets tr'"
  by (simp add: gets_def)

lemma gets_simps [simp]:
  "gets [] = 0" "gets (Get u # tr) = Suc (gets tr)" "gets (Sleep d # tr) = gets tr"
  by (simp_all add: gets_def)

lemma sleeps_append [simp]: "sleeps (tr @ tr') = sleeps tr + sleeps tr'"
  by (simp add: sleeps_def)

lemma sleeps_simps [simp]:
  "sleeps [] = 0" "sleeps (Get u # tr) = sleeps tr" "sleeps (Sleep d # tr) = Suc (sleeps tr)"
  by (simp_all add: sleeps_def)

lemma getPage_okPage: "okPage (srv n u) rs next \<Longrightarrow> getPage srv n u = Inr (rs, next)"
  by (auto simp: okPage_def getPage_def split: exchange.splits)

text \<open>
  The three ways a page fails: no response, a status of 400 or more, a body
  that does not decode.
\<close>

lemma getPage_fails_iff:
  "(\<exists>err. getPage srv n u = Inl err) \<longleftrightarrow>
   (case srv n u of Response r \<Rightarrow> StatusCode r \<ge> 400 \<or> isl (Unmarshal r) | _ \<Rightarrow> True)"
  by (auto simp: getPage_def split: exchange.splits sum.splits)

text \<open>One round of the loop on a page that arrives, below the cap.\<close>

lemma GetAllPages_loop_step:
  assumes "u \<noteq> []" and "okPage (srv (gets tr) u) rs next"
    and "m \<le> 0 \<or> int (length acc) < m"
  shows "GetAllPages_loop srv m acc u tr =
         GetAllPages_loop srv m (acc @ rs) next
           (tr @ Get u # (if next \<noteq> [] then [Sleep RateLimitDelay] else []))"
  using assms by (subst GetAllPages_loop.simps) (auto simp: getPage_okPage)

text \<open>The rounds over a list of linked pages, by induction on the list.\<close>

lemma GetAllPages_loop_linked:
  "linked srv (gets tr) ps fin \<Longrightarrow> ps \<noteq> [] \<Longrightarrow>
   m \<le> 0 \<or> int (length acc + length (concat (map snd (butlast ps)))) < m \<Longrightarrow>
   GetAllPages_loop srv m acc (fst (hd ps)) tr =
   GetAllPages_loop srv m (acc @ concat (map snd ps)) fin
     (tr @ walkTrace (map fst ps) @ (if fin \<noteq> [] then [Sleep RateLimitDelay] else []))"
proof (induction ps arbitrary: tr acc)
  case Nil
  then show ?case by simp
next
  case (Cons p ps)
  obtain u rs where p: "p = (u, rs)" by (cases p)
  show ?case
  proof (cases ps)
    case Nil
    with Cons.prems p show ?thesis
      by (simp add: GetAllPages_loop_step)
  next
    case (Cons q qs)
    obtain v ws where q: "q = (v, ws)" by (cases q)
    from Cons.prems p Cons q have u: "u \<noteq> []" and ok: "okPage (srv (gets tr) u) rs v"
      and rest: "linked srv (Suc (gets tr)) ps fin" by simp_all
    from rest Cons q have v: "v \<noteq> []" by (cases qs) auto
    have cap: "m \<le> 0 \<or> int (length acc) < m"
      using Cons.prems(3) by auto
    have cap': "m \<le> 0 \<or> int (length (acc @ rs) + length (concat (map snd (butlast ps)))) < m"
      using Cons.prems(3) p Cons by auto
    have "GetAllPages_loop srv m acc u tr =
          GetAllPages_loop srv m (acc @ rs) v (tr @ [Get u, Sleep RateLimitDelay])"
      using GetAllPages_loop_step [of u srv tr rs v m acc] u ok cap v by simp
    also have "\<dots> = GetAllPages_loop srv m ((acc @ rs) @ concat (map snd ps)) fin
        ((tr @ [Get u, Sleep RateLimitDelay]) @ walkTrace (map fst ps) @
         (if fin \<noteq> [] then [Sleep RateLimitDelay] else []))"
      using Cons.IH [of "tr @ [Get u, Sleep RateLimitDelay]" "acc @ rs"] rest cap' Cons q by simp
    finally show ?thesis using p Cons q by simp
  qed
qed

lemma gets_walkTrace: "gets (walkTrace us) = length us"
  by (induction us rule: walkTrace.induct) simp_all

lemma sleeps_walkTrace: "sleeps (walkTrace us) = length us - 1"
  by (induction us rule: walkTrace.induct) simp_all

lemma walkTrace_Nil_iff [simp]: "walkTrace us = [] \<longleftrightarrow> us = []"
  by (induction us rule: walkTrace.induct) simp_all

lemma last_walkTrace: "us \<noteq> [] \<Longrightarrow> last (walkTrace us) = Get (last us)"
  by (induction us rule: walkTrace.induct) simp_all

text \<open>
  C7: for a server exposing K cursor-linked pages and no cap (\<open>maxResults = 0\<close>),
  \<open>GetAllPages\<close> returns the records of all K pages in page order and no error;
  it requests each page once, sleeps the rate-limit delay exactly K - 1 times,
  each time between two requests, and not after the final page.
\<close>

theorem GetAllPages_walks_all_pages:
  assumes "exposes srv ps" and "baseURL c @ endpoint = fst (hd ps)"
  shows "GetAllPages srv c endpoint 0 =
           Some (concat (map snd ps), None, walkTrace (map fst ps)) \<and>
         gets (walkTrace (map fst ps)) = length ps \<and>
         sleeps (walkTrace (map fst ps)) = length ps - 1 \<and>
         last (walkTrace (map fst ps)) = Get (fst (last ps))"
proof -
  from assms(1) have ne: "ps \<noteq> []" and l: "linked srv (gets []) ps []"
    by (simp_all add: exposes_def)
  have "GetAllPages_loop srv 0 [] (fst (hd ps)) [] =
        GetAllPages_loop srv 0 ([] @ concat (map snd ps)) [] ([] @ walkTrace (map fst ps) @ [])"
    using GetAllPages_loop_linked [OF l ne, of 0 "[]"] by simp
  also have "\<dots> = Some (concat (map snd ps), None, walkTrace (map fst ps))"
    by (subst GetAllPages_loop.simps) simp
  finally show ?thesis
    using assms(2) ne
    by (simp add: GetAllPages_def gets_walkTrace sleeps_walkTrace last_walkTrace last_map)
qed

theorem GetAllPages_walks_all_pages_witness:
  "exposes demoServer
     [(''https://graph/v1.0/users'', [''u1'', ''u2'']),
      (''https://graph/v1.0/users?skip=2'', [''u3'', ''u4'']),
      (''https://graph/v1.0/users?skip=4'', [''u5''])] \<and>
   GetAllPages demoServer demoClient ''/users'' 0 =
     Some ([''u1'', ''u2'', ''u3'', ''u4'', ''u5''], None,
       [Get ''https://graph/v1.0/users'', Sleep RateLimitDelay,
        Get ''https://graph/v1.0/users?skip=2'', Sleep RateLimitDelay,
        Get ''https://graph/v1.0/users?skip=4''])"
  using GetAllPages_walks_all_pages [of demoServer
     "[(''https://graph/v1.0/users'', [''u1'', ''u2'']),
      (''https://graph/v1.0/users?skip=2'', [''u3'', ''u4'']),
      (''https://graph/v1.0/users?skip=4'', [''u5''])]" demoClient "''/users''"]
  by (simp add: exposes_def okPage_def demoServer_def demoClient_def)

text \<open>
  C8: when the pages before it arrived (each linking to the next, the cap not
  reached) and the request for a later page fails, \<open>GetAllPages\<close> returns the
  records of all earlier pages, in order, together with the error of the failed
  page; the failed request is the last one it makes.
\<close>

theorem GetAllPages_keeps_partial_results:
  assumes "ps \<noteq> []" and "linked srv 0 ps v" and "v \<noteq> []"
    and "getPage srv (length ps) v = Inl err"
    and "baseURL c @ endpoint = fst (hd ps)"
    and "m \<le> 0 \<or> int (length (concat (map snd ps))) < m"
  shows "GetAllPages srv c endpoint m =
           Some (concat (map snd ps), Some err,
                 walkTrace (map fst ps) @ [Sleep RateLimitDelay, Get v]) \<and>
         gets (walkTrace (map fst ps) @ [Sleep RateLimitDelay, Get v]) = Suc (length ps)"
proof -
  have l: "linked srv (gets []) ps v" using assms(2) by simp
  have "length (concat (map snd (butlast ps))) \<le> length (concat (map snd ps))"
    using assms(1) by (induction ps rule: rev_induct) simp_all
  with assms(6) have cap:
    "m \<le> 0 \<or> int (length ([]::RawMessage list) + length (concat (map snd (butlast ps)))) < m"
    by auto
  have "GetAllPages_loop srv m [] (fst (hd ps)) [] =
        GetAllPages_loop srv m (concat (map snd ps)) v
          (walkTrace (map fst ps) @ [Sleep RateLimitDelay])"
    using GetAllPages_loop_linked [OF l assms(1) cap] assms(3) by simp
  also have "\<dots> = Some (concat (map snd ps), Some err,
                 walkTrace (map fst ps) @ [Sleep RateLimitDelay, Get v])"
    using assms(3,4,6) by (subst GetAllPages_loop.simps) (auto simp: gets_walkTrace)
  finally show ?thesis
    using assms(5) by (simp add: GetAllPages_def gets_walkTrace)
qed

theorem GetAllPages_keeps_partial_results_witness:
  "linked flakyServer 0 [(''https://graph/v1.0/users'', [''u1'', ''u2''])]
     ''https://graph/v1.0/users?skip=2'' \<and>
   getPage flakyServer 1 ''https://graph/v1.0/users?skip=2'' = Inl ''API error 503: busy'' \<and>
   GetAllPages flakyServer demoClient ''/users'' 0 =
     Some ([''u1'', ''u2''], Some ''API error 503: busy'',
       [Get ''https://graph/v1.0/users'', Sleep RateLimitDelay,
        Get ''https://graph/v1.0/users?skip=2''])"
  using GetAllPages_keeps_partial_results
     [of "[(''https://graph/v1.0/users'', [''u1'', ''u2''])]" flakyServer
      "''https://graph/v1.0/users?skip=2''" "''API error 503: busy''" demoClient "''/users''" 0]
  by (simp add: okPage_def getPage_def truncateError_def flakyServer_def demoServer_def
      demoClient_def showInt_def showNat.simps)

text \<open>
  C9: with a cap \<open>maxResults > 0\<close> that the first page already meets,
  \<open>GetAllPages\<close> makes the one request for the first page and no other, and
  returns all records of that page: at least \<open>maxResults\<close> of them, not cut
  down to \<open>maxResults\<close>.
\<close>

theorem GetAllPages_stops_at_maxResults:
  assumes "baseURL c @ endpoint \<noteq> []"
    and "okPage (srv 0 (baseURL c @ endpoint)) rs next"
    and "0 < m" and "m \<le> int (length rs)"
  shows "GetAllPages srv c endpoint m =
           Some (rs, None,
             Get (baseURL c @ endpoint) # (if next \<noteq> [] then [Sleep RateLimitDelay] else [])) \<and>
         gets (Get (baseURL c @ endpoint) # (if next \<noteq> [] then [Sleep RateLimitDelay] else [])) = 1 \<and>
         m \<le> int (length rs)"
proof -
  have "GetAllPages_loop srv m [] (baseURL c @ endpoint) [] =
        GetAllPages_loop srv m rs next
          (Get (baseURL c @ endpoint) # (if next \<noteq> [] then [Sleep RateLimitDelay] else []))"
    using GetAllPages_loop_step [of "baseURL c @ endpoint" srv "[]" rs "next" m "[]"] assms
    by simp
  also have "\<dots> = Some (rs, None,
             Get (baseURL c @ endpoint) # (if next \<noteq> [] then [Sleep RateLimitDelay] else []))"
    using assms(3,4) by (subst GetAllPages_loop.simps) simp
  finally show ?thesis using assms(4) by (simp add: GetAllPages_def)
qed

theorem GetAllPages_stops_at_maxResults_witness:
  "GetAllPages demoServer demoClient ''/users'' 1 =
     Some ([''u1'', ''u2''], None, [Get ''https://graph/v1.0/users'', Sleep RateLimitDelay])"
  using GetAllPages_stops_at_maxResults [of demoClient "''/users''" demoServer "[''u1'', ''u2'']"
      "''https://graph/v1.0/users?skip=2''" 1]
  by (simp add: okPage_def demoServer_def demoClient_def)

section \<open>The poll loop\<close>

lemma Contains_append_left: "Contains (x @ y) x"
  by (auto simp: Contains_def sublist_def intro: exI [of _ "[]"])

lemma pending_message:
  "Contains (''authorization_pending'' @ '': '' @ d) ''authorization_pending''"
  by (rule Contains_append_left)

lemma parseIntOrDefault_pos: "0 < d \<Longrightarrow> 0 < parseIntOrDefault scan s d"
  by (simp add: parseIntOrDefault_def split: option.splits)

lemma secondsDuration_exact:
  "0 \<le> n \<Longrightarrow> n * Second < 2 ^ 63 \<Longrightarrow> secondsDuration n = n * Second"
  by (simp add: secondsDuration_def wrap64_def Second_def)

text \<open>
  Beyond \<open>2 ^ 63\<close> nanoseconds the product wraps: an interval of 9223372037
  seconds is a negative duration, for which \<open>time.Sleep\<close> does not sleep.
\<close>

lemma secondsDuration_wraps: "secondsDuration 9223372037 = - 9223372036709551616"
  by (simp add: secondsDuration_def wrap64_def Second_def)

text \<open>One round: what it posts and how far it moves the clock.\<close>

lemma posts_polled: "posts (polled net a code i w) = posts w @ [redeemPost a code]"
  by (simp add: polled_def redeemDeviceCode_def postForm_def sleepFor_def redeemPost_def
      split: prod.splits exchange.splits sum.splits)

lemma clock_polled:
  "clock (polled net a code i w) =
     clock w + max 0 (secondsDuration i) + int (fst (net (length (posts w))))"
  by (simp add: polled_def redeemDeviceCode_def postForm_def sleepFor_def
      split: prod.splits exchange.splits sum.splits)

lemma posts_polled_funpow:
  "posts ((polled net a code i ^^ n) w) = posts w @ replicate n (redeemPost a code)"
  by (induction n) (simp_all add: posts_polled replicate_append_same)

lemma clock_polled_funpow:
  "clock ((polled net a code i ^^ n) w) =
     clock w + int n * max 0 (secondsDuration i) +
     (\<Sum>k<n. int (fst (net (length (posts w) + k))))"
  by (induction n) (simp_all add: clock_polled posts_polled_funpow algebra_simps)

lemma clock_polled_mono:
  "k \<le> n \<Longrightarrow> clock ((polled net a code i ^^ k) w) \<le> clock ((polled net a code i ^^ n) w)"
proof (induction n)
  case 0
  then show ?case by simp
next
  case (Suc n)
  show ?case
  proof (cases "k = Suc n")
    case True
    then show ?thesis by simp
  next
    case False
    with Suc have "clock ((polled net a code i ^^ k) w) \<le> clock ((polled net a code i ^^ n) w)"
      by simp
    also have "\<dots> \<le> clock ((polled net a code i ^^ Suc n) w)"
      by (simp add: clock_polled)
    finally show ?thesis .
  qed
qed

text \<open>What \<open>redeemDeviceCode\<close> returns for each kind of exchange.\<close>

lemma redeem_pending:
  assumes "pending (snd (net (length (posts w))))"
  shows "\<exists>err. redeemDeviceCode net a code (sleepFor (secondsDuration i) w) =
             (Inl err, polled net a code i w) \<and>
           Contains err ''authorization_pending''"
  using assms
  by (auto simp: pending_def polled_def redeemDeviceCode_def postForm_def sleepFor_def
      pending_message [simplified] split: prod.splits exchange.splits)

lemma redeem_granted:
  assumes "granted (snd (net (length (posts w)))) t"
  shows "redeemDeviceCode net a code (sleepFor (secondsDuration i) w) =
           (Inr t, polled net a code i w)"
  using assms
  by (auto simp: granted_def polled_def redeemDeviceCode_def postForm_def sleepFor_def
      split: prod.splits exchange.splits)



text \<open>One round of the loop, for each outcome of the redemption.\<close>

lemma pollLoop_pending:
  assumes "clock w < dl" and "pending (snd (net (length (posts w))))"
  shows "pollLoop net a code i e dl w = pollLoop net a code i e dl (polled net a code i w)"
proof -
  from redeem_pending [of net w a code i] assms(2)
  obtain err where r: "redeemDeviceCode net a code (sleepFor (secondsDuration i) w) =
      (Inl err, polled net a code i w)" and c: "Contains err ''authorization_pending''"
    by auto
  show ?thesis
    by (subst pollLoop.simps) (simp add: assms(1) r c)
qed

lemma pollLoop_granted:
  assumes "clock w < dl" and "granted (snd (net (length (posts w)))) t"
  shows "pollLoop net a code i e dl w = Some (Inr t, polled net a code i w)"
  using redeem_granted [of net w t a code i] assms
  by (subst pollLoop.simps) simp


lemma pollLoop_retries:
  assumes "clock w < dl"
    and "redeemDeviceCode net a code (sleepFor (secondsDuration i) w) = (Inl err, w')"
    and "Contains err ''authorization_pending''"
  shows "pollLoop net a code i e dl w = pollLoop net a code i e dl w'"
  by (subst pollLoop.simps) (simp add: assms)

text \<open>Any number of pending rounds, while the clock at the loop head is early.\<close>

lemma pollLoop_pendings:
  "\<forall>k<n. pending (snd (net (length (posts w) + k))) \<Longrightarrow>
   \<forall>k<n. clock ((polled net a code i ^^ k) w) < dl \<Longrightarrow>
   pollLoop net a code i e dl w = pollLoop net a code i e dl ((polled net a code i ^^ n) w)"
proof (induction n)
  case 0
  then show ?case by simp
next
  case (Suc n)
  have "pollLoop net a code i e dl w = pollLoop net a code i e dl ((polled net a code i ^^ n) w)"
    using Suc by simp
  also have "\<dots> = pollLoop net a code i e dl (polled net a code i ((polled net a code i ^^ n) w))"
    using Suc.prems by (intro pollLoop_pending) (simp_all add: posts_polled_funpow)
  finally show ?case by simp
qed

lemma pollForToken_after_pendings:
  assumes i: "i = parseIntOrDefault scan (Interval dc) 5"
    and e: "e = parseIntOrDefault scan (dcExpiresIn dc) 900"
    and wN: "wN = (polled net a (DeviceCode dc) i ^^ N) w"
    and pend: "\<forall>k<N. pending (snd (net (length (posts w) + k)))"
    and early: "int N * max 0 (secondsDuration i) +
        (\<Sum>k<N. int (fst (net (length (posts w) + k)))) < secondsDuration e"
  shows "pollForToken scan net a dc w =
           pollLoop net a (DeviceCode dc) i e (clock w + secondsDuration e) wN"
    and "clock wN < clock w + secondsDuration e"
    and "posts wN = posts w @ replicate N (redeemPost a (DeviceCode dc))"
proof -
  let ?w = "\<lambda>n. (polled net a (DeviceCode dc) i ^^ n) w"
  let ?dl = "clock w + secondsDuration e"
  show last: "clock wN < ?dl"
    using early by (simp add: clock_polled_funpow wN)
  have heads: "\<forall>k<N. clock (?w k) < ?dl"
  proof (intro allI impI)
    fix k assume "k < N"
    then have "clock (?w k) \<le> clock (?w N)" by (intro clock_polled_mono) simp
    with last show "clock (?w k) < ?dl" by (simp add: wN)
  qed
  have "pollLoop net a (DeviceCode dc) i e ?dl w = pollLoop net a (DeviceCode dc) i e ?dl (?w N)"
    using pend heads by (rule pollLoop_pendings)
  then show "pollForToken scan net a dc w = pollLoop net a (DeviceCode dc) i e ?dl wN"
    by (simp add: pollForToken_def Let_def i e wN)
  show "posts wN = posts w @ replicate N (redeemPost a (DeviceCode dc))"
    by (simp add: wN posts_polled_funpow)
qed

lemma posts_demoWorld: "posts demoWorld = []"
  by (simp add: demoWorld_def)

text \<open>
  C1: when the token endpoint answers N times \<open>authorization_pending\<close> and then
  once with a credential whose access token is non-empty, and the deadline is
  far enough away that the clock is still before it when the last of the N + 1
  rounds begins, \<open>pollForToken\<close> returns that credential and has posted exactly
  N + 1 redemption requests.
\<close>

theorem pollForToken_pending_then_granted:
  assumes pend: "\<forall>k<N. pending (snd (net (length (posts w) + k)))"
    and grant: "granted (snd (net (length (posts w) + N))) t"
    and early: "int N * max 0 (secondsDuration (parseIntOrDefault scan (Interval dc) 5)) +
        (\<Sum>k<N. int (fst (net (length (posts w) + k))))
        < secondsDuration (parseIntOrDefault scan (dcExpiresIn dc) 900)"
  shows "\<exists>w'. pollForToken scan net a dc w = Some (Inr t, w') \<and>
           posts w' = posts w @ replicate (Suc N) (redeemPost a (DeviceCode dc))"
proof -
  define i where "i = parseIntOrDefault scan (Interval dc) 5"
  define e where "e = parseIntOrDefault scan (dcExpiresIn dc) 900"
  define wN where "wN = (polled net a (DeviceCode dc) i ^^ N) w"
  note after = pollForToken_after_pendings [OF i_def e_def wN_def pend early [folded i_def e_def]]
  have "length (posts wN) = length (posts w) + N"
    by (simp add: after(3))
  with grant have "pollLoop net a (DeviceCode dc) i e (clock w + secondsDuration e) wN =
      Some (Inr t, polled net a (DeviceCode dc) i wN)"
    by (intro pollLoop_granted after(2)) simp
  moreover have "posts (polled net a (DeviceCode dc) i wN) =
      posts w @ replicate (Suc N) (redeemPost a (DeviceCode dc))"
    by (simp add: posts_polled after(3) flip: replicate_append_same)
  ultimately show ?thesis
    using after(1) by simp
qed

theorem pollForToken_pending_then_granted_witness:
  "\<exists>w'. pollForToken scanDemo demoNet demoAuth demoCode demoWorld = Some (Inr demoTokens, w') \<and>
     posts w' = replicate (Suc 2) (redeemPost demoAuth (DeviceCode demoCode))"
proof -
  have p: "\<forall>k<2. pending (snd (demoNet (length (posts demoWorld) + k)))"
    by (simp add: pending_def demoNet_def pendingBody_def demoWorld_def)
  have g: "granted (snd (demoNet (length (posts demoWorld) + 2))) demoTokens"
    by (simp add: granted_def demoNet_def grantedBody_def demoTokens_def demoWorld_def)
  have t: "int 2 * max 0 (secondsDuration (parseIntOrDefault scanDemo (Interval demoCode) 5)) +
        (\<Sum>k<2. int (fst (demoNet (length (posts demoWorld) + k))))
        < secondsDuration (parseIntOrDefault scanDemo (dcExpiresIn demoCode) 900)"
    by (simp add: demoNet_def demoCode_def scanDemo_def parseIntOrDefault_def
        secondsDuration_def wrap64_def Second_def demoWorld_def)
  show ?thesis
    using pollForToken_pending_then_granted [OF p g t, of demoAuth] posts_demoWorld by simp
qed

text \<open>
  With pending answers only, the loop ends: every round moves the clock by the
  interval at least, and the round that begins before the deadline ends less
  than the interval and the duration of its request after it.
\<close>

lemma pollLoop_times_out:
  assumes pend: "\<forall>k\<ge>n. pending (snd (net k))" and lat: "\<forall>k\<ge>n. fst (net k) \<le> L"
    and pos: "0 < secondsDuration i"
  shows "n \<le> length (posts w) \<Longrightarrow> clock w < dl + secondsDuration i + int L \<Longrightarrow>
     \<exists>w'. pollLoop net a code i e dl w =
            Some (Inl (''authentication timed out after '' @ showInt e @ '' seconds''), w') \<and>
          dl \<le> clock w' \<and> clock w' < dl + secondsDuration i + int L"
proof (induction "nat (dl - clock w)" arbitrary: w rule: less_induct)
  case less
  show ?case
  proof (cases "clock w < dl")
    case False
    then have "pollLoop net a code i e dl w =
        Some (Inl (''authentication timed out after '' @ showInt e @ '' seconds''), w)"
      by (subst pollLoop.simps) simp
    with False less.prems show ?thesis by auto
  next
    case True
    let ?w = "polled net a code i w"
    have c: "clock ?w = clock w + secondsDuration i + int (fst (net (length (posts w))))"
      using pos by (simp add: clock_polled)
    have "int (fst (net (length (posts w)))) \<le> int L"
      using lat less.prems(1) by simp
    with c True have bound: "clock ?w < dl + secondsDuration i + int L" by linarith
    have later: "n \<le> length (posts ?w)"
      using less.prems(1) by (simp add: posts_polled)
    from c pos True have "nat (dl - clock ?w) < nat (dl - clock w)" by linarith
    from less.hyps [OF this later bound]
    obtain w' where "pollLoop net a code i e dl ?w =
        Some (Inl (''authentication timed out after '' @ showInt e @ '' seconds''), w')"
      and "dl \<le> clock w'" and "clock w' < dl + secondsDuration i + int L" by blast
    moreover have "pollLoop net a code i e dl w = pollLoop net a code i e dl ?w"
      using True pend less.prems(1) by (intro pollLoop_pending) simp_all
    ultimately show ?thesis by auto
  qed
qed

text \<open>
  C2, as amended: when every redemption attempt yields \<open>authorization_pending\<close>
  and takes at most \<open>L\<close> nanoseconds, and the interval and the lifetime of the
  device code, in nanoseconds, fit a 64-bit integer, \<open>pollForToken\<close> returns,
  with the timed-out error, at a time not before the deadline and less than one
  poll interval plus \<open>L\<close> after it.
\<close>

theorem pollForToken_times_out:
  assumes pend: "\<forall>k\<ge>length (posts w). pending (snd (net k))"
    and lat: "\<forall>k\<ge>length (posts w). fst (net k) \<le> L"
    and fitsI: "parseIntOrDefault scan (Interval dc) 5 * Second < 2 ^ 63"
    and fitsE: "parseIntOrDefault scan (dcExpiresIn dc) 900 * Second < 2 ^ 63"
  shows "\<exists>w'. pollForToken scan net a dc w =
            Some (Inl (''authentication timed out after '' @
                    showInt (parseIntOrDefault scan (dcExpiresIn dc) 900) @ '' seconds''), w') \<and>
          clock w + parseIntOrDefault scan (dcExpiresIn dc) 900 * Second \<le> clock w' \<and>
          clock w' < clock w + parseIntOrDefault scan (dcExpiresIn dc) 900 * Second +
                      parseIntOrDefault scan (Interval dc) 5 * Second + int L"
proof -
  define i where "i = parseIntOrDefault scan (Interval dc) 5"
  define e where "e = parseIntOrDefault scan (dcExpiresIn dc) 900"
  have i: "0 < i" and e: "0 < e"
    by (simp_all add: i_def e_def parseIntOrDefault_pos)
  have di: "secondsDuration i = i * Second" and de: "secondsDuration e = e * Second"
    using i e fitsI fitsE by (simp_all add: secondsDuration_exact i_def e_def)
  have pos: "0 < secondsDuration i" and pose: "0 < secondsDuration e"
    using i e by (simp_all add: di de Second_def)
  have start: "clock w < (clock w + secondsDuration e) + secondsDuration i + int L"
    using pos pose by linarith
  from pollLoop_times_out [OF pend lat pos order_refl start, of a "DeviceCode dc" e]
  show ?thesis
    by (simp add: pollForToken_def Let_def di de flip: i_def e_def)
qed

theorem pollForToken_times_out_witness:
  "\<exists>w'. pollForToken scanDemo slowNet demoAuth hastyCode demoWorld =
            Some (Inl (''authentication timed out after '' @ showInt 10 @ '' seconds''), w') \<and>
          clock demoWorld + 10 * Second \<le> clock w' \<and>
          clock w' < clock demoWorld + 10 * Second + 5 * Second + 3 * Second"
proof -
  have p: "\<forall>k\<ge>length (posts demoWorld). pending (snd (slowNet k))"
    by (simp add: pending_def slowNet_def pendingBody_def)
  have l: "\<forall>k\<ge>length (posts demoWorld). fst (slowNet k) \<le> 3000000000"
    by (simp add: slowNet_def)
  have i: "parseIntOrDefault scanDemo (Interval hastyCode) 5 = 5"
    and e: "parseIntOrDefault scanDemo (dcExpiresIn hastyCode) 900 = 10"
    by (simp_all add: parseIntOrDefault_def scanDemo_def hastyCode_def demoCode_def)
  have fi: "parseIntOrDefault scanDemo (Interval hastyCode) 5 * Second < 2 ^ 63"
    and fe: "parseIntOrDefault scanDemo (dcExpiresIn hastyCode) 900 * Second < 2 ^ 63"
    by (simp_all add: i e Second_def)
  show ?thesis
    using pollForToken_times_out [OF p l fi fe, of demoAuth]
    by (simp add: i e Second_def)
qed

text \<open>
  C2, as stated, fails: with an interval of 5 seconds, a lifetime of 10 seconds
  and requests that take 3 seconds each, the second round begins 8 seconds after
  the start, before the deadline, and the loop returns 16 seconds after the
  start: 6 seconds after the deadline, more than one poll interval.
\<close>

theorem pollForToken_overshoots_deadline:
  "pollForToken scanDemo slowNet demoAuth hastyCode demoWorld =
     Some (Inl ''authentication timed out after 10 seconds'',
           demoWorld\<lparr>clock := clock demoWorld + 16 * Second,
             posts := [redeemPost demoAuth ''DAQAB'', redeemPost demoAuth ''DAQAB'']\<rparr>) \<and>
   \<not> clock demoWorld + 16 * Second \<le> (clock demoWorld + 10 * Second) + 5 * Second"
  by (simp add: pollForToken_def pollLoop.simps redeemDeviceCode_def postForm_def sleepFor_def
      parseIntOrDefault_def scanDemo_def hastyCode_def demoCode_def slowNet_def pendingBody_def
      demoWorld_def demoAuth_def redeemPost_def secondsDuration_def wrap64_def Second_def Unix_def
      Contains_def sublist_Cons_right showInt_def showNat.simps TokenEndpoint_def)




section \<open>Expiry of a credential\<close>




text \<open>
  C5: a credential is valid exactly when now is strictly before its expiry
  minus five minutes: valid whenever the expiry is more than five minutes
  ahead, invalid whenever it is five minutes ahead or less, or past.
\<close>

theorem isTokenValid_skew:
  "(isTokenValid now (Some t) \<longleftrightarrow> now < ExpiresAt t - 5 * Minute) \<and>
   (now + 5 * Minute < ExpiresAt t \<longrightarrow> isTokenValid now (Some t)) \<and>
   (ExpiresAt t \<le> now + 5 * Minute \<longrightarrow> \<not> isTokenValid now (Some t))"
  by (auto simp: isTokenValid_def)

theorem isTokenValid_skew_witness:
  "isTokenValid (Unix 1700000000) (Some freshTokens) \<and>
   \<not> isTokenValid (Unix 1700003400) (Some freshTokens)"
  using isTokenValid_skew [of "Unix 1700000000" freshTokens]
    isTokenValid_skew [of "Unix 1700003400" freshTokens]
  by (simp add: freshTokens_def Unix_def Minute_def Second_def)

section \<open>Refresh and fallback\<close>

lemma refresh_fails:
  assumes "tokens a = Some old" and "refreshFails (snd (net (length (posts w))))"
  shows "\<exists>err. refresh scan net a w = (Some err, a, posted net (refreshPost a old) w)"
  using assms
  by (auto simp: refresh_def refreshFails_def posted_def refreshPost_def postForm_def
      split: prod.splits exchange.splits sum.splits)

lemma disk_posted: "disk (posted net p w) = disk w"
  by (simp add: posted_def postForm_def split: prod.splits)

text \<open>
  C6: when the token file holds an expired credential with a refresh token and
  the refresh request fails (a transport error, a body that does not decode, or
  a body without access token), \<open>refresh\<close> returns an error and leaves the
  credential in memory and the token file as they were, and \<open>GetTokens\<close> and
  \<open>GetAccessToken\<close> return what the device-code flow returns from there, not the
  error of the refresh.
\<close>

theorem GetTokens_refresh_failure_falls_back:
  assumes "disk w = Holds old" and "\<not> isTokenValid (clock w) (Some old)"
    and "RefreshToken old \<noteq> []" and "refreshFails (snd (net (length (posts w))))"
  shows "(\<exists>err. refresh scan net (a\<lparr>tokens := Some old\<rparr>) w =
            (Some err, a\<lparr>tokens := Some old\<rparr>,
             posted net (refreshPost (a\<lparr>tokens := Some old\<rparr>) old) w)) \<and>
         disk (posted net (refreshPost (a\<lparr>tokens := Some old\<rparr>) old) w) = Holds old \<and>
         GetTokens scan net a w =
           deviceCodeAuth scan net (a\<lparr>tokens := Some old\<rparr>)
             (posted net (refreshPost (a\<lparr>tokens := Some old\<rparr>) old) w) \<and>
         GetAccessToken scan net a w =
           (case deviceCodeAuth scan net (a\<lparr>tokens := Some old\<rparr>)
                   (posted net (refreshPost (a\<lparr>tokens := Some old\<rparr>) old) w) of
              None \<Rightarrow> None
            | Some (Inl err, a', w') \<Rightarrow> Some (Inl err, a', w')
            | Some (Inr t, a', w') \<Rightarrow> Some (Inr (AccessToken t), a', w'))"
proof -
  let ?a = "a\<lparr>tokens := Some old\<rparr>"
  let ?w = "posted net (refreshPost ?a old) w"
  from refresh_fails [of ?a old net w scan] assms(4)
  obtain err where r: "refresh scan net ?a w = (Some err, ?a, ?w)" by auto
  have g: "GetTokens scan net a w = deviceCodeAuth scan net ?a ?w"
    using assms(1-3) by (simp add: GetTokens_def loadTokens_def r)
  show ?thesis
    using r g assms(1) by (simp add: disk_posted GetAccessToken_def)
qed

theorem GetTokens_refresh_failure_falls_back_witness:
  "map_option fst (GetTokens scanDemo fallbackNet demoAuth staleWorld) = Some (Inr freshTokens) \<and>
   map_option fst (GetAccessToken scanDemo fallbackNet demoAuth staleWorld) = Some (Inr ''eyJ0'')"
proof -
  have 1: "disk staleWorld = Holds staleTokens"
    by (simp add: staleWorld_def)
  have 2: "\<not> isTokenValid (clock staleWorld) (Some staleTokens)"
    by (simp add: isTokenValid_def staleWorld_def staleTokens_def Unix_def Minute_def Second_def)
  have 3: "RefreshToken staleTokens \<noteq> []"
    by (simp add: staleTokens_def demoTokens_def)
  have 4: "refreshFails (snd (fallbackNet (length (posts staleWorld))))"
    by (simp add: refreshFails_def fallbackNet_def staleWorld_def invalidGrantBody_def zeroTokenResponse_def)
  have d: "deviceCodeAuth scanDemo fallbackNet (demoAuth\<lparr>tokens := Some staleTokens\<rparr>)
      (posted fallbackNet (refreshPost (demoAuth\<lparr>tokens := Some staleTokens\<rparr>) staleTokens)
         staleWorld) =
      Some (Inr freshTokens, demoAuth\<lparr>tokens := Some freshTokens\<rparr>,
        \<lparr>clock = Unix 1700000000 + 10800000000,
         posts = [refreshPost demoAuth staleTokens,
                  (DeviceCodeEndpoint,
                   [(''client_id'', clientID demoAuth), (''resource'', resource demoAuth)]),
                  redeemPost demoAuth ''DAQAB'', redeemPost demoAuth ''DAQAB''],
         disk = Holds freshTokens, writeError = None\<rparr>)"
    by (simp add: deviceCodeAuth_def requestDeviceCode_def pollForToken_def pollLoop.simps Let_def
        redeemDeviceCode_def postForm_def sleepFor_def posted_def refreshPost_def redeemPost_def
        parseIntOrDefault_def parseExpiration_def saveTokens_def scanDemo_def demoCode_def
        fallbackNet_def deviceCodeBody_def pendingBody_def grantedBody_def invalidGrantBody_def
        staleWorld_def demoAuth_def demoTokens_def freshTokens_def staleTokens_def
        secondsDuration_def wrap64_def Second_def Unix_def
        Contains_def sublist_Cons_right TokenEndpoint_def DeviceCodeEndpoint_def)
  show ?thesis
    using GetTokens_refresh_failure_falls_back
      [of staleWorld staleTokens fallbackNet scanDemo demoAuth] 1 2 3 4 d
    by (simp add: freshTokens_def demoTokens_def)
qed

section \<open>Verification URL\<close>

text \<open>
  C10: \<open>GetVerificationURL\<close> returns the v1.0 field \<open>verification_url\<close> whenever it
  is non-empty, and otherwise the v2.0 field \<open>verification_uri\<close>; the result is the
  empty string only when both fields are empty.
\<close>

theorem GetVerificationURL_prefers_v1:
  "(VerificationURL d \<noteq> [] \<longrightarrow> GetVerificationURL d = VerificationURL d) \<and>
   (VerificationURL d = [] \<longrightarrow> GetVerificationURL d = VerificationURI d) \<and>
   (GetVerificationURL d = [] \<longleftrightarrow> VerificationURL d = [] \<and> VerificationURI d = [])"
  by (simp add: GetVerificationURL_def)

theorem GetVerificationURL_prefers_v1_witness:
  "GetVerificationURL \<lparr>DeviceCode = ''dc'', UserCode = ''ABCD'',
      VerificationURL = ''https://aka.ms/devicelogin'',
      VerificationURI = ''https://microsoft.com/devicelogin'',
      dcExpiresIn = ''900'', Interval = ''5'', Message = ''''\<rparr> = ''https://aka.ms/devicelogin'' \<and>
   GetVerificationURL \<lparr>DeviceCode = ''dc'', UserCode = ''ABCD'',
      VerificationURL = '''',
      VerificationURI = ''https://microsoft.com/devicelogin'',
      dcExpiresIn = ''900'', Interval = ''5'', Message = ''''\<rparr> = ''https://microsoft.com/devicelogin''"
  using GetVerificationURL_prefers_v1 [of "\<lparr>DeviceCode = ''dc'', UserCode = ''ABCD'',
      VerificationURL = ''https://aka.ms/devicelogin'',
      VerificationURI = ''https://microsoft.com/devicelogin'',
      dcExpiresIn = ''900'', Interval = ''5'', Message = ''''\<rparr>"]
    GetVerificationURL_prefers_v1 [of "\<lparr>DeviceCode = ''dc'', UserCode = ''ABCD'',
      VerificationURL = '''',
      VerificationURI = ''https://microsoft.com/devicelogin'',
      dcExpiresIn = ''900'', Interval = ''5'', Message = ''''\<rparr>"]
  by simp

end
